theory Spec2Isabelle
  imports Main
begin

section \<open>Go values used by \<^verbatim>\<open>source/store.go\<close>\<close>

text \<open>
  A run-time panic of the Go program is a value of the model: a method call on a nil
  interface or a field read through a nil pointer, and an index out of range.
\<close>

datatype panic = NilDereference | IndexOutOfRange

text \<open>
  A Go \<^verbatim>\<open>error\<close> value. \<open>errorString msg\<close> is what \<^verbatim>\<open>errors.New(msg)\<close> returns: a value
  that holds the message text and nothing else. \<open>collaboratorError d\<close> stands for an
  error produced by one of the libraries the file calls. A nil error is \<open>None\<close> of
  \<open>error option\<close>.
\<close>

datatype error = errorString string | collaboratorError string

text \<open>
  A value of the interface type \<^verbatim>\<open>kubernetes.Interface\<close> as \<^verbatim>\<open>SingletonClientGenerator\<close>
  holds it: the nil interface (the zero value of the field), or an interface that wraps a
  \<^verbatim>\<open>*kubernetes.Clientset\<close>; that pointer is itself nil (\<open>None\<close>) or points to a client
  \<open>h\<close>.
\<close>

datatype 'h Interface = NilInterface | Clientset "'h option"

section \<open>\<^verbatim>\<open>strings.Split\<close> and the path-labelling callback\<close>

text \<open>
  \<open>HasPrefix s sep\<close>: the text \<open>s\<close> starts with \<open>sep\<close>. \<open>Index s sep\<close> is the position of
  the first occurrence of \<open>sep\<close> in \<open>s\<close>; \<open>None\<close> stands for Go's \<open>-1\<close>.
\<close>

fun HasPrefix :: "string \<Rightarrow> string \<Rightarrow> bool" where
  "HasPrefix s [] = True"
| "HasPrefix [] (p # ps) = False"
| "HasPrefix (c # cs) (p # ps) = (c = p \<and> HasPrefix cs ps)"

fun Index :: "string \<Rightarrow> string \<Rightarrow> nat option" where
  "Index [] sep = (if HasPrefix [] sep then Some 0 else None)"
| "Index (c # cs) sep =
     (if HasPrefix (c # cs) sep then Some 0 else map_option Suc (Index cs sep))"

lemma HasPrefix_length: "HasPrefix s sep \<Longrightarrow> length sep \<le> length s"
  by (induction s sep rule: HasPrefix.induct) auto

lemma Index_bound: "Index s sep = Some m \<Longrightarrow> m + length sep \<le> length s"
proof (induction s arbitrary: m)
  case Nil
  then show ?case by (cases sep) (auto split: if_splits)
next
  case (Cons c cs)
  show ?case
  proof (cases "HasPrefix (c # cs) sep")
    case True
    with Cons.prems HasPrefix_length [OF True] show ?thesis by simp
  next
    case False
    with Cons.prems obtain m' where "Index cs sep = Some m'" "m = Suc m'" by auto
    with Cons.IH show ?thesis by fastforce
  qed
qed

text \<open>
  \<^verbatim>\<open>strings.Split(s, sep)\<close>: the pieces of \<open>s\<close> between the occurrences of \<open>sep\<close>, found
  from the left. With an empty separator Go cuts \<open>s\<close> into its characters; the program
  never calls it that way.
\<close>

function Split :: "string \<Rightarrow> string \<Rightarrow> string list" where
  "Split s sep =
     (if sep = [] then map (\<lambda>c. [c]) s
      else case Index s sep of
             None \<Rightarrow> [s]
           | Some m \<Rightarrow> take m s # Split (drop (m + length sep) s) sep)"
  by pat_completeness auto
termination
proof (relation "measure (\<lambda>(s, sep). length s)")
  show "wf (measure (\<lambda>(s, sep). length s))" by simp
next
  fix s sep :: string and m :: nat
  assume "sep \<noteq> []" "Index s sep = Some m"
  then have "m + length sep \<le> length s" "0 < length sep"
    using Index_bound [of s sep m] by simp_all
  then show "((drop (m + length sep) s, sep), (s, sep)) \<in> measure (\<lambda>(s, sep). length s)"
    by (cases sep) auto
qed

declare Split.simps [simp del]

text \<open>
  The \<^verbatim>\<open>PathProcessor\<close> callback of \<^verbatim>\<open>NewKubeClient\<close> (lines 94 to 97):
  \<^verbatim>\<open>parts := strings.Split(path, "/"); return parts[len(parts)-1]\<close>.
  The index is a Go \<^verbatim>\<open>int\<close>; an index outside the slice panics.
\<close>

definition PathProcessor :: "string \<Rightarrow> panic + string" where
  "PathProcessor path =
     (let parts = Split path ''/'';
          i = int (length parts) - 1
      in if 0 \<le> i \<and> i < int (length parts) then Inr (parts ! nat i)
         else Inl IndexOutOfRange)"

section \<open>\<^verbatim>\<open>NewKubeClient\<close>\<close>

text \<open>
  \<^verbatim>\<open>rest.Config\<close>, as far as the file touches it: the field \<open>Host\<close> it logs and the
  field \<open>WrapTransport\<close> it sets. \<open>WrapTransport\<close> holds the path-labelling callback of
  the instrumented transport that the installed wrapper builds around the transport it
  is given; \<open>None\<close> is the unset field.
\<close>

record rest_Config =
  Host :: string
  WrapTransport :: "(string \<Rightarrow> panic + string) option"

text \<open>
  The collaborators of \<^verbatim>\<open>NewKubeClient\<close>, over a world \<open>'w\<close> (file system, network, log)
  that every call may read and change:
  \<^item> \<open>RecommendedHomeFile\<close>: the constant \<^verbatim>\<open>clientcmd.RecommendedHomeFile\<close>;
  \<^item> \<open>Stat path\<close>: the error of \<^verbatim>\<open>os.Stat(path)\<close> (the file information is discarded);
  \<^item> \<open>BuildConfigFromFlags master kubeconfig\<close> and \<open>NewForConfig config\<close>: an error, or
    a value with a nil error;
  \<^item> \<open>Infof format arg\<close>: the log line.
\<close>

record ('w, 'h) kube_env =
  RecommendedHomeFile :: string
  Stat :: "string \<Rightarrow> 'w \<Rightarrow> error option \<times> 'w"
  BuildConfigFromFlags :: "string \<Rightarrow> string \<Rightarrow> 'w \<Rightarrow> (error + rest_Config) \<times> 'w"
  NewForConfig :: "rest_Config \<Rightarrow> 'w \<Rightarrow> (error + 'h) \<times> 'w"
  Infof :: "string \<Rightarrow> string \<Rightarrow> 'w \<Rightarrow> 'w"

text \<open>
  \<^verbatim>\<open>NewKubeClient(kubeConfig, kubeMaster)\<close> (lines 80 to 109). The result is the pair
  \<^verbatim>\<open>(*kubernetes.Clientset, error)\<close>.
\<close>

definition NewKubeClient ::
  "('w, 'h) kube_env \<Rightarrow> string \<Rightarrow> string \<Rightarrow> 'w \<Rightarrow> ('h option \<times> error option) \<times> 'w" where
  "NewKubeClient env kubeConfig kubeMaster w =
     (case (if kubeConfig = []
            then (case Stat env (RecommendedHomeFile env) w of
                    (None, w') \<Rightarrow> (RecommendedHomeFile env, w')
                  | (Some e, w') \<Rightarrow> (kubeConfig, w'))
            else (kubeConfig, w)) of
        (kubeConfig', w1) \<Rightarrow>
          (case BuildConfigFromFlags env kubeMaster kubeConfig' w1 of
             (Inl e, w2) \<Rightarrow> ((None, Some e), w2)
           | (Inr config, w2) \<Rightarrow>
               (case NewForConfig env (config\<lparr>WrapTransport := Some PathProcessor\<rparr>) w2 of
                  (Inl e, w3) \<Rightarrow> ((None, Some e), w3)
                | (Inr h, w3) \<Rightarrow>
                    ((Some h, None),
                     Infof env ''Connected to cluster at %s'' (Host config) w3))))"

section \<open>\<^verbatim>\<open>SingletonClientGenerator\<close>\<close>

text \<open>
  \<^verbatim>\<open>sync.Once\<close>: the flag \<^verbatim>\<open>done\<close> and the mutex \<^verbatim>\<open>m\<close> (\<open>mu_locked\<close>: the mutex is held).
\<close>

record sync_Once =
  done_flag :: bool
  mu_locked :: bool

record 'h SingletonClientGenerator =
  KubeConfig :: string
  KubeMaster :: string
  client :: "'h Interface"
  Once :: sync_Once

text \<open>
  The composite literal \<^verbatim>\<open>&SingletonClientGenerator{KubeConfig: kc, KubeMaster: km}\<close>: the
  unexported fields have their zero values.
\<close>

definition new_generator :: "string \<Rightarrow> string \<Rightarrow> 'h SingletonClientGenerator" where
  "new_generator kc km =
     \<lparr>KubeConfig = kc, KubeMaster = km, client = NilInterface,
      Once = \<lparr>done_flag = False, mu_locked = False\<rparr>\<rparr>"

text \<open>
  A \<^verbatim>\<open>sync.Once\<close> that has not been used (its zero value; a \<^verbatim>\<open>Once\<close> must not be copied
  after first use): \<^verbatim>\<open>done\<close> is not set and the mutex is free.
\<close>

definition unused :: "sync_Once \<Rightarrow> bool" where
  "unused once = (\<not> done_flag once \<and> \<not> mu_locked once)"

subsection \<open>One call at a time\<close>

text \<open>
  \<^verbatim>\<open>Once.Do(f)\<close> when no other call is in progress: \<open>f\<close> runs if \<^verbatim>\<open>done\<close> is not set, and
  \<^verbatim>\<open>done\<close> is set afterwards. \<open>f\<close> acts on the variables that the closure captures.
\<close>

definition Do :: "sync_Once \<Rightarrow> ('v \<Rightarrow> 'v) \<Rightarrow> 'v \<Rightarrow> sync_Once \<times> 'v" where
  "Do once f v = (if done_flag once then (once, v) else (once\<lparr>done_flag := True\<rparr>, f v))"

text \<open>
  \<^verbatim>\<open>(p *SingletonClientGenerator) KubeClient()\<close> (lines 36 to 42). The closure given to
  \<^verbatim>\<open>Do\<close> assigns \<^verbatim>\<open>p.client\<close> and the local variable \<^verbatim>\<open>err\<close>, which starts as nil in every
  call; the call returns \<^verbatim>\<open>p.client, err\<close>. The state is the generator and the world.
\<close>

definition KubeClient ::
  "('w, 'h) kube_env \<Rightarrow> 'h SingletonClientGenerator \<times> 'w \<Rightarrow>
     ('h Interface \<times> error option) \<times> ('h SingletonClientGenerator \<times> 'w)" where
  "KubeClient env = (\<lambda>(p, w).
     (case Do (Once p)
             (\<lambda>(cl, err, w).
                 (case NewKubeClient env (KubeConfig p) (KubeMaster p) w of
                    ((c, e), w') \<Rightarrow> (Clientset c, e, w')))
             (client p, None, w) of
        (once', cl, err, w') \<Rightarrow> ((cl, err), (p\<lparr>client := cl, Once := once'\<rparr>, w'))))"

subsection \<open>Calls that overlap\<close>

text \<open>
  Every call of \<^verbatim>\<open>KubeClient\<close> on one generator is a frame with a program point and its
  own local \<^verbatim>\<open>err\<close>. The program points follow \<^verbatim>\<open>KubeClient\<close> and the body of
  \<^verbatim>\<open>sync.Once.Do\<close>:
  \<^item> \<open>Entry\<close>: the call has not started; its first step is the fast test of \<^verbatim>\<open>done\<close>;
  \<^item> \<open>Locking\<close>: at \<^verbatim>\<open>o.m.Lock()\<close>; the call waits while the mutex is held;
  \<^item> \<open>Locked\<close>: holds the mutex, at the second test of \<^verbatim>\<open>done\<close>;
  \<^item> \<open>Calling\<close>: about to call the closure, that is \<^verbatim>\<open>NewKubeClient\<close>;
  \<^item> \<open>Running\<close>: \<^verbatim>\<open>NewKubeClient\<close> is running; the step out of it assigns its results;
  \<^item> \<open>Storing\<close>: at the deferred \<^verbatim>\<open>o.done.Store(1)\<close>;
  \<^item> \<open>Unlocking\<close>: at the deferred \<^verbatim>\<open>o.m.Unlock()\<close>;
  \<^item> \<open>AfterDo\<close>: at \<^verbatim>\<open>return p.client, err\<close>;
  \<^item> \<open>Returned cl e\<close>: the call has returned \<open>(cl, e)\<close>.
\<close>

datatype 'h pc =
  Entry | Locking | Locked | Calling | Running | Storing | Unlocking | AfterDo
  | Returned "'h Interface" "error option"

record 'h frame =
  point :: "'h pc"
  local_err :: "error option"

text \<open>
  The generator, the frames of the calls (numbered), the world, and two observations
  that no step reads: \<open>started\<close> counts the invocations of \<^verbatim>\<open>NewKubeClient\<close>, and
  \<open>results\<close> lists what the finished invocations returned.
\<close>

record ('h, 'w) system =
  generator :: "'h SingletonClientGenerator"
  frames :: "nat \<Rightarrow> 'h frame"
  world :: 'w
  started :: nat
  results :: "('h option \<times> error option) list"

definition init :: "'h SingletonClientGenerator \<Rightarrow> 'w \<Rightarrow> ('h, 'w) system" where
  "init p w =
     \<lparr>generator = p, frames = (\<lambda>t. \<lparr>point = Entry, local_err = None\<rparr>), world = w,
      started = 0, results = []\<rparr>"

definition goto :: "nat \<Rightarrow> 'h pc \<Rightarrow> ('h, 'w) system \<Rightarrow> ('h, 'w) system" where
  "goto t l s = s\<lparr>frames := (frames s)(t := (frames s t)\<lparr>point := l\<rparr>)\<rparr>"

definition set_Once :: "sync_Once \<Rightarrow> ('h, 'w) system \<Rightarrow> ('h, 'w) system" where
  "set_Once once s = s\<lparr>generator := (generator s)\<lparr>Once := once\<rparr>\<rparr>"

text \<open>One step of call \<open>t\<close>. A call that waits for the mutex, or has returned, stays.\<close>

definition step :: "('w, 'h) kube_env \<Rightarrow> nat \<Rightarrow> ('h, 'w) system \<Rightarrow> ('h, 'w) system" where
  "step env t s =
     (let p = generator s in
      case point (frames s t) of
        Entry \<Rightarrow> goto t (if done_flag (Once p) then AfterDo else Locking) s
      | Locking \<Rightarrow>
          if mu_locked (Once p) then s
          else goto t Locked (set_Once ((Once p)\<lparr>mu_locked := True\<rparr>) s)
      | Locked \<Rightarrow> goto t (if done_flag (Once p) then Unlocking else Calling) s
      | Calling \<Rightarrow> goto t Running (s\<lparr>started := Suc (started s)\<rparr>)
      | Running \<Rightarrow>
          (case NewKubeClient env (KubeConfig p) (KubeMaster p) (world s) of
             ((c, e), w') \<Rightarrow>
               s\<lparr>generator := p\<lparr>client := Clientset c\<rparr>,
                 frames := (frames s)(t := \<lparr>point = Storing, local_err = e\<rparr>),
                 world := w',
                 results := results s @ [(c, e)]\<rparr>)
      | Storing \<Rightarrow> goto t Unlocking (set_Once ((Once p)\<lparr>done_flag := True\<rparr>) s)
      | Unlocking \<Rightarrow> goto t AfterDo (set_Once ((Once p)\<lparr>mu_locked := False\<rparr>) s)
      | AfterDo \<Rightarrow> goto t (Returned (client p) (local_err (frames s t))) s
      | Returned cl e \<Rightarrow> s)"

text \<open>A schedule is the list of the calls that take the successive steps.\<close>

definition run ::
  "('w, 'h) kube_env \<Rightarrow> nat list \<Rightarrow> ('h, 'w) system \<Rightarrow> ('h, 'w) system" where
  "run env sched s = foldl (\<lambda>s t. step env t s) s sched"

subsection \<open>What holds in every reachable state\<close>

text \<open>
  \<open>holds_mutex\<close>: the program points between \<^verbatim>\<open>Lock\<close> and \<^verbatim>\<open>Unlock\<close>. \<open>past_Do\<close>: the points
  that a call reaches only when \<^verbatim>\<open>done\<close> is set. \<open>returned_is c l\<close>: a call at \<open>l\<close> that has
  returned has returned the client \<open>c\<close>.
\<close>

fun holds_mutex :: "'h pc \<Rightarrow> bool" where
  "holds_mutex Locked = True"
| "holds_mutex Calling = True"
| "holds_mutex Running = True"
| "holds_mutex Storing = True"
| "holds_mutex Unlocking = True"
| "holds_mutex l = False"

fun past_Do :: "'h pc \<Rightarrow> bool" where
  "past_Do Unlocking = True"
| "past_Do AfterDo = True"
| "past_Do (Returned cl e) = True"
| "past_Do l = False"

fun returned_is :: "'h Interface \<Rightarrow> 'h pc \<Rightarrow> bool" where
  "returned_is c (Returned cl e) = (cl = c)"
| "returned_is c l = True"

text \<open>
  \<open>attempt_recorded\<close>: \<^verbatim>\<open>NewKubeClient\<close> has been invoked once, that invocation has
  finished, and \<^verbatim>\<open>p.client\<close> wraps the pointer it returned.
\<close>

definition attempt_recorded :: "('h, 'w) system \<Rightarrow> bool" where
  "attempt_recorded s =
     (started s = 1 \<and> length (results s) = 1 \<and>
      client (generator s) = Clientset (fst (hd (results s))))"

text \<open>
  The invariant, relative to the call \<open>owner\<close> that holds the mutex (if any):
  \<open>frame_ok\<close> is the part about one call, \<open>global_ok\<close> the part about the generator.
\<close>

definition frame_ok :: "nat option \<Rightarrow> ('h, 'w) system \<Rightarrow> nat \<Rightarrow> bool" where
  "frame_ok owner s u =
     ((holds_mutex (point (frames s u)) \<longrightarrow> owner = Some u) \<and>
      (point (frames s u) = Calling \<longrightarrow>
         \<not> done_flag (Once (generator s)) \<and> started s = 0 \<and> results s = []) \<and>
      (point (frames s u) = Running \<longrightarrow>
         \<not> done_flag (Once (generator s)) \<and> started s = 1 \<and> results s = []) \<and>
      (point (frames s u) = Storing \<longrightarrow>
         \<not> done_flag (Once (generator s)) \<and> attempt_recorded s \<and>
         local_err (frames s u) = snd (hd (results s))) \<and>
      (past_Do (point (frames s u)) \<longrightarrow> done_flag (Once (generator s))) \<and>
      returned_is (client (generator s)) (point (frames s u)))"

definition global_ok :: "nat option \<Rightarrow> ('h, 'w) system \<Rightarrow> bool" where
  "global_ok owner s =
     ((case owner of
         None \<Rightarrow> True
       | Some v \<Rightarrow> mu_locked (Once (generator s)) \<and> holds_mutex (point (frames s v))) \<and>
      (done_flag (Once (generator s)) \<longrightarrow> attempt_recorded s) \<and>
      (\<not> done_flag (Once (generator s)) \<longrightarrow>
         (started s = 0 \<and> results s = []) \<or>
         (case owner of
            None \<Rightarrow> False
          | Some v \<Rightarrow> point (frames s v) = Running \<or> point (frames s v) = Storing)))"

definition consistent_with :: "nat option \<Rightarrow> ('h, 'w) system \<Rightarrow> bool" where
  "consistent_with owner s = (global_ok owner s \<and> (\<forall>u. frame_ok owner s u))"

section \<open>\<^verbatim>\<open>BuildWithConfig\<close> and \<^verbatim>\<open>ByNames\<close>\<close>

text \<open>\<^verbatim>\<open>Config\<close> (lines 17 to 19); a \<^verbatim>\<open>*Config\<close> is a \<open>Config option\<close>, \<open>None\<close> the nil pointer.\<close>

record Config =
  Namespace :: string

text \<open>
  A \<^verbatim>\<open>ClientGenerator\<close> (lines 22 to 24) is its method \<^verbatim>\<open>KubeClient\<close>, which returns a client
  \<open>'c\<close> and an error and may change the world; the nil interface is \<open>None\<close>.
  The two constructors \<^verbatim>\<open>NewIngressNginxSource\<close> and \<^verbatim>\<open>NewIngressGCESource\<close> are defined
  in other files of the package: they are parameters here. Each takes the client and the
  namespace and returns a \<^verbatim>\<open>Source\<close> (\<open>None\<close>: the nil interface) and an error.
\<close>

type_synonym ('w, 'c) ClientGenerator = "'w \<Rightarrow> ('c \<times> error option) \<times> 'w"

record ('w, 'c, 'src) source_env =
  NewIngressNginxSource :: "'c \<Rightarrow> string \<Rightarrow> 'w \<Rightarrow> ('src option \<times> error option) \<times> 'w"
  NewIngressGCESource :: "'c \<Rightarrow> string \<Rightarrow> 'w \<Rightarrow> ('src option \<times> error option) \<times> 'w"

text \<open>
  \<^verbatim>\<open>BuildWithConfig(source, p, cfg)\<close> (lines 59 to 75). In a matching case the call
  \<^verbatim>\<open>p.KubeClient()\<close> comes first; the argument \<^verbatim>\<open>cfg.Namespace\<close> is read before the
  constructor is called.
\<close>

definition BuildWithConfig ::
  "('w, 'c, 'src) source_env \<Rightarrow> string \<Rightarrow> ('w, 'c) ClientGenerator option \<Rightarrow> Config option \<Rightarrow>
     'w \<Rightarrow> (panic + 'src option \<times> error option) \<times> 'w" where
  "BuildWithConfig env source p cfg w =
     (if source = ''ingress-nginx'' then
        (case p of
           None \<Rightarrow> (Inl NilDereference, w)
         | Some kubeClient \<Rightarrow>
             (case kubeClient w of
                ((cl, Some e), w1) \<Rightarrow> (Inr (None, Some e), w1)
              | ((cl, None), w1) \<Rightarrow>
                  (case cfg of
                     None \<Rightarrow> (Inl NilDereference, w1)
                   | Some c \<Rightarrow>
                       (case NewIngressNginxSource env cl (Namespace c) w1 of
                          (r, w2) \<Rightarrow> (Inr r, w2)))))
      else if source = ''ingress-gce'' then
        (case p of
           None \<Rightarrow> (Inl NilDereference, w)
         | Some kubeClient \<Rightarrow>
             (case kubeClient w of
                ((cl, Some e), w1) \<Rightarrow> (Inr (None, Some e), w1)
              | ((cl, None), w1) \<Rightarrow>
                  (case cfg of
                     None \<Rightarrow> (Inl NilDereference, w1)
                   | Some c \<Rightarrow>
                       (case NewIngressGCESource env cl (Namespace c) w1 of
                          (r, w2) \<Rightarrow> (Inr r, w2)))))
      else (Inr (None, Some (errorString ''source not found'')), w))"

text \<open>
  \<^verbatim>\<open>ByNames(p, names, cfg)\<close> (lines 45 to 56). \<open>ByNames_loop\<close> is the \<^verbatim>\<open>for\<close> loop over the
  names that are left, with the slice \<^verbatim>\<open>sources\<close> built so far. The result is the pair
  \<^verbatim>\<open>([]Source, error)\<close>: \<open>None\<close> is the nil slice, \<open>Some []\<close> the empty one.
\<close>

fun ByNames_loop ::
  "('w, 'c, 'src) source_env \<Rightarrow> ('w, 'c) ClientGenerator option \<Rightarrow> Config option \<Rightarrow>
     'src option list \<Rightarrow> string list \<Rightarrow> 'w \<Rightarrow>
     (panic + 'src option list option \<times> error option) \<times> 'w" where
  "ByNames_loop env p cfg sources [] w = (Inr (Some sources, None), w)"
| "ByNames_loop env p cfg sources (name # names) w =
     (case BuildWithConfig env name p cfg w of
        (Inl pn, w') \<Rightarrow> (Inl pn, w')
      | (Inr (src, Some e), w') \<Rightarrow> (Inr (None, Some e), w')
      | (Inr (src, None), w') \<Rightarrow> ByNames_loop env p cfg (sources @ [src]) names w')"

definition ByNames ::
  "('w, 'c, 'src) source_env \<Rightarrow> ('w, 'c) ClientGenerator option \<Rightarrow> string list \<Rightarrow>
     Config option \<Rightarrow> 'w \<Rightarrow> (panic + 'src option list option \<times> error option) \<times> 'w" where
  "ByNames env p names cfg w = ByNames_loop env p cfg [] names w"

section \<open>Observing the calls to the collaborators\<close>

text \<open>
  To state which collaborators a function calls, in which order and with which
  arguments, the world is paired with a list of the calls made so far, and every
  collaborator is wrapped so that it appends its call (with its result) to that list
  and otherwise behaves as before. The functions of the program are not changed: they
  are run on the wrapped collaborators.
\<close>

datatype ('c, 'src) call =
    CallKubeClient "'c \<times> error option"
  | CallNewIngressNginxSource 'c string "'src option \<times> error option"
  | CallNewIngressGCESource 'c string "'src option \<times> error option"

definition traced_generator ::
  "('w, 'c) ClientGenerator \<Rightarrow> ('w \<times> ('c, 'src) call list, 'c) ClientGenerator" where
  "traced_generator kubeClient =
     (\<lambda>(w, tr). case kubeClient w of (r, w') \<Rightarrow> (r, (w', tr @ [CallKubeClient r])))"

definition traced_sources ::
  "('w, 'c, 'src) source_env \<Rightarrow> ('w \<times> ('c, 'src) call list, 'c, 'src) source_env" where
  "traced_sources env =
     \<lparr>NewIngressNginxSource =
        (\<lambda>cl ns (w, tr). case NewIngressNginxSource env cl ns w of
           (r, w') \<Rightarrow> (r, (w', tr @ [CallNewIngressNginxSource cl ns r]))),
      NewIngressGCESource =
        (\<lambda>cl ns (w, tr). case NewIngressGCESource env cl ns w of
           (r, w') \<Rightarrow> (r, (w', tr @ [CallNewIngressGCESource cl ns r])))\<rparr>"

text \<open>The constructor call that the registry makes for a known name.\<close>

definition constructor_call ::
  "string \<Rightarrow> 'c \<Rightarrow> string \<Rightarrow> 'src option \<times> error option \<Rightarrow> ('c, 'src) call" where
  "constructor_call name =
     (if name = ''ingress-nginx'' then CallNewIngressNginxSource
      else CallNewIngressGCESource)"

fun is_CallKubeClient :: "('c, 'src) call \<Rightarrow> bool" where
  "is_CallKubeClient (CallKubeClient r) = True"
| "is_CallKubeClient (CallNewIngressNginxSource cl ns r) = False"
| "is_CallKubeClient (CallNewIngressGCESource cl ns r) = False"

datatype kube_call =
    CallStat string
  | CallBuildConfigFromFlags string string
  | CallNewForConfig rest_Config
  | CallInfof string string

definition traced_kube :: "('w, 'h) kube_env \<Rightarrow> ('w \<times> kube_call list, 'h) kube_env" where
  "traced_kube env =
     \<lparr>RecommendedHomeFile = RecommendedHomeFile env,
      Stat = (\<lambda>path (w, tr). case Stat env path w of
                (r, w') \<Rightarrow> (r, (w', tr @ [CallStat path]))),
      BuildConfigFromFlags = (\<lambda>master path (w, tr).
         case BuildConfigFromFlags env master path w of
           (r, w') \<Rightarrow> (r, (w', tr @ [CallBuildConfigFromFlags master path]))),
      NewForConfig = (\<lambda>config (w, tr). case NewForConfig env config w of
                (r, w') \<Rightarrow> (r, (w', tr @ [CallNewForConfig config]))),
      Infof = (\<lambda>format arg (w, tr). (Infof env format arg w, tr @ [CallInfof format arg]))\<rparr>"

text \<open>The calls that decide the credential file: \<^verbatim>\<open>os.Stat\<close> and the config builder.\<close>

fun is_credential_call :: "kube_call \<Rightarrow> bool" where
  "is_credential_call (CallStat path) = True"
| "is_credential_call (CallBuildConfigFromFlags master path) = True"
| "is_credential_call (CallNewForConfig config) = False"
| "is_credential_call (CallInfof format arg) = False"

section \<open>Sample collaborators\<close>

text \<open>
  A small world for the concrete instances below: the world is the list of the files
  that exist. The config builder accepts an empty path or the path of a file that
  exists; the client built for a config is the length of its host name.
\<close>

definition sample_kube :: "(string list, nat) kube_env" where
  "sample_kube =
     \<lparr>RecommendedHomeFile = ''/home/u/.kube/config'',
      Stat = (\<lambda>path fs.
         (if path \<in> set fs then None else Some (collaboratorError ''stat: no such file''), fs)),
      BuildConfigFromFlags = (\<lambda>master path fs.
         (if path = [] \<or> path \<in> set fs then Inr \<lparr>Host = master, WrapTransport = None\<rparr>
          else Inl (collaboratorError ''kubeconfig: no such file''), fs)),
      NewForConfig = (\<lambda>config fs. (Inr (length (Host config)), fs)),
      Infof = (\<lambda>format arg fs. fs)\<rparr>"

text \<open>Constructors that always succeed and return a record of what they were given.\<close>

definition sample_sources :: "('w, 'c, string \<times> 'c \<times> string) source_env" where
  "sample_sources =
     \<lparr>NewIngressNginxSource = (\<lambda>cl ns w. ((Some (''nginx'', cl, ns), None), w)),
      NewIngressGCESource = (\<lambda>cl ns w. ((Some (''gce'', cl, ns), None), w))\<rparr>"

definition sample_state :: "nat SingletonClientGenerator \<times> string list" where
  "sample_state = (new_generator [] ''https://k8s'', [])"

definition sample_generator ::
  "(nat SingletonClientGenerator \<times> string list, nat Interface) ClientGenerator" where
  "sample_generator = KubeClient sample_kube"

definition prod :: "Config option" where
  "prod = Some \<lparr>Namespace = ''prod''\<rparr>"

text \<open>
  What \<^verbatim>\<open>ByNames\<close> gives for the names \<open>ingress-nginx\<close>, \<open>ingress-gce\<close> on these
  collaborators: the sources, the calls made, and the final state.
\<close>

definition sample_built :: "(string \<times> nat Interface \<times> string) option list" where
  "sample_built =
     [Some (''nginx'', Clientset (Some 11), ''prod''), Some (''gce'', Clientset (Some 11), ''prod'')]"

definition sample_calls :: "(nat Interface, string \<times> nat Interface \<times> string) call list" where
  "sample_calls =
     [CallKubeClient (Clientset (Some 11), None),
      CallNewIngressNginxSource (Clientset (Some 11)) ''prod''
        (Some (''nginx'', Clientset (Some 11), ''prod''), None),
      CallKubeClient (Clientset (Some 11), None),
      CallNewIngressGCESource (Clientset (Some 11)) ''prod''
        (Some (''gce'', Clientset (Some 11), ''prod''), None)]"

definition sample_final :: "nat SingletonClientGenerator \<times> string list" where
  "sample_final =
     (\<lparr>KubeConfig = [], KubeMaster = ''https://k8s'', client = Clientset (Some 11),
       Once = \<lparr>done_flag = True, mu_locked = False\<rparr>\<rparr>, [])"

text \<open>The same for the name \<open>ingress-gce\<close> given twice.\<close>

definition twice_built :: "(string \<times> nat Interface \<times> string) option list" where
  "twice_built =
     [Some (''gce'', Clientset (Some 11), ''prod''), Some (''gce'', Clientset (Some 11), ''prod'')]"

definition twice_calls :: "(nat Interface, string \<times> nat Interface \<times> string) call list" where
  "twice_calls =
     [CallKubeClient (Clientset (Some 11), None),
      CallNewIngressGCESource (Clientset (Some 11)) ''prod''
        (Some (''gce'', Clientset (Some 11), ''prod''), None),
      CallKubeClient (Clientset (Some 11), None),
      CallNewIngressGCESource (Clientset (Some 11)) ''prod''
        (Some (''gce'', Clientset (Some 11), ''prod''), None)]"

text \<open>A generator whose explicit credential file does not exist in the sample world.\<close>

definition broken_state :: "nat SingletonClientGenerator \<times> string list" where
  "broken_state = (new_generator ''/missing'' ''https://k8s'', [])"

definition broken_final :: "nat SingletonClientGenerator \<times> string list" where
  "broken_final =
     (\<lparr>KubeConfig = ''/missing'', KubeMaster = ''https://k8s'', client = Clientset None,
       Once = \<lparr>done_flag = True, mu_locked = False\<rparr>\<rparr>, [])"

text \<open>
  Two overlapping calls on a new generator: call 1 arrives at \<^verbatim>\<open>Lock\<close> while call 0
  holds the mutex, is scheduled twice while it waits, and goes on after call 0 has
  unlocked.
\<close>

definition sample_system :: "(nat, string list) system" where
  "sample_system = init (new_generator [] ''https://k8s'') []"

definition broken_system :: "(nat, string list) system" where
  "broken_system = init (new_generator ''/missing'' ''https://k8s'') []"

definition two_calls :: "nat list" where
  "two_calls = [0, 1, 0, 1, 0, 0, 0, 1, 0, 0, 0, 1, 1, 1, 1]"

section \<open>Vocabulary of the statements\<close>

text \<open>
  The calls of a successful \<^verbatim>\<open>ByNames\<close>, position by position: the provider's
  \<^verbatim>\<open>KubeClient\<close> returning the client \<open>cl\<close> with a nil error, then the constructor of the
  name on \<open>cl\<close> and the namespace \<open>ns\<close>, returning the source of that position with a nil
  error.
\<close>

fun calls_for ::
  "string \<Rightarrow> string list \<Rightarrow> 'c list \<Rightarrow> 'src option list \<Rightarrow> ('c, 'src) call list" where
  "calls_for ns (name # names) (cl # cls) (src # srcs) =
     CallKubeClient (cl, None) # constructor_call name cl ns (src, None)
       # calls_for ns names cls srcs"
| "calls_for ns names cls srcs = []"

text \<open>
  The text of an error (its method \<^verbatim>\<open>Error()\<close>) and \<^verbatim>\<open>strings.Contains\<close>, to say whether
  an error mentions a name.
\<close>

fun message :: "error \<Rightarrow> string" where
  "message (errorString msg) = msg"
| "message (collaboratorError d) = d"

definition Contains :: "string \<Rightarrow> string \<Rightarrow> bool" where
  "Contains s substr = (Index s substr \<noteq> None)"

section \<open>Properties of the path-labelling callback\<close>

lemma HasPrefix_single: "HasPrefix s [c] = (s \<noteq> [] \<and> hd s = c)"
  by (cases s) auto

lemma Index_absent: "c \<notin> set s \<Longrightarrow> Index s [c] = None"
  by (induction s) (auto simp: HasPrefix_single)

lemma Index_first: "c \<notin> set pre \<Longrightarrow> Index (pre @ c # suf) [c] = Some (length pre)"
  by (induction pre) (auto simp: HasPrefix_single)

lemma Split_absent: "c \<notin> set s \<Longrightarrow> Split s [c] = [s]"
  by (simp add: Split.simps Index_absent)

lemma Split_first: "c \<notin> set pre \<Longrightarrow> Split (pre @ c # suf) [c] = pre # Split suf [c]"
  by (subst Split.simps) (simp add: Index_first)

lemma Split_not_Nil: "sep \<noteq> [] \<Longrightarrow> Split s sep \<noteq> []"
  by (subst Split.simps) (simp split: option.split)

lemma Split_last:
  "c \<notin> set suf \<Longrightarrow> last (Split (pre @ c # suf) [c]) = suf"
proof (induction "length pre" arbitrary: pre rule: less_induct)
  case less
  show ?case
  proof (cases "c \<in> set pre")
    case True
    then obtain a b where pre: "pre = a @ c # b" and a: "c \<notin> set a"
      by (auto dest: split_list_first)
    have "Split (pre @ c # suf) [c] = a # Split (b @ c # suf) [c]"
      using Split_first [OF a, of "b @ c # suf"] by (simp add: pre)
    moreover have "last (Split (b @ c # suf) [c]) = suf"
      using less.hyps [of b] less.prems by (simp add: pre)
    ultimately show ?thesis
      by (simp add: Split_not_Nil)
  next
    case False
    then show ?thesis
      using less.prems by (simp add: Split_first Split_absent)
  qed
qed

lemma Split_parts_free: "part \<in> set (Split s [c]) \<Longrightarrow> c \<notin> set part"
proof (induction "length s" arbitrary: s rule: less_induct)
  case less
  show ?case
  proof (cases "c \<in> set s")
    case True
    then obtain a b where s: "s = a @ c # b" and a: "c \<notin> set a"
      by (auto dest: split_list_first)
    have "Split s [c] = a # Split b [c]"
      using Split_first [OF a, of b] by (simp add: s)
    with less.prems have "part = a \<or> part \<in> set (Split b [c])" by simp
    then show ?thesis
      using a less.hyps [of b] by (auto simp: s)
  next
    case False
    with less.prems show ?thesis by (simp add: Split_absent)
  qed
qed

lemma PathProcessor_last: "PathProcessor path = Inr (last (Split path ''/''))"
proof -
  have "Split path ''/'' \<noteq> []" by (simp add: Split_not_Nil)
  then show ?thesis
    by (cases "Split path ''/''" rule: rev_cases) (simp_all add: PathProcessor_def Let_def)
qed

text \<open>
  C8. The callback maps a path to its last segment: a path with no \<open>/\<close> is returned
  whole, and a path \<open>pre @ ''/'' @ suf\<close> whose part \<open>suf\<close> has no \<open>/\<close> (so that this \<open>/\<close>
  is the final one) is mapped to \<open>suf\<close>.
\<close>

theorem PathProcessor_last_segment:
  "(CHR ''/'' \<notin> set path \<longrightarrow> PathProcessor path = Inr path) \<and>
   (\<forall>pre suf. path = pre @ CHR ''/'' # suf \<and> CHR ''/'' \<notin> set suf \<longrightarrow>
      PathProcessor path = Inr suf)"
  by (simp add: PathProcessor_last Split_absent Split_last)

theorem PathProcessor_last_segment_witness:
  "PathProcessor ''/api/v1/pods'' = Inr ''pods'' \<and> PathProcessor ''healthz'' = Inr ''healthz''"
proof
  have "''/api/v1/pods'' = ''/api/v1'' @ CHR ''/'' # ''pods'' \<and> CHR ''/'' \<notin> set ''pods''"
    by simp
  then show "PathProcessor ''/api/v1/pods'' = Inr ''pods''"
    using PathProcessor_last_segment [of "''/api/v1/pods''"] by blast
next
  have "CHR ''/'' \<notin> set ''healthz''" by simp
  then show "PathProcessor ''healthz'' = Inr ''healthz''"
    using PathProcessor_last_segment [of "''healthz''"] by blast
qed

text \<open>
  C10. The callback never panics: \<^verbatim>\<open>strings.Split(path, "/")\<close> has at least one element,
  so the index \<^verbatim>\<open>len(parts)-1\<close> is in range and a segment is returned for every path; the
  segment contains no \<open>/\<close>, and the empty path is mapped to the empty string.
\<close>

theorem PathProcessor_total:
  "Split path ''/'' \<noteq> [] \<and>
   (\<exists>seg. PathProcessor path = Inr seg \<and> CHR ''/'' \<notin> set seg) \<and>
   PathProcessor [] = Inr []"
proof -
  have ne: "Split path ''/'' \<noteq> []" by (simp add: Split_not_Nil)
  then have "last (Split path ''/'') \<in> set (Split path ''/'')" by simp
  then have "CHR ''/'' \<notin> set (last (Split path ''/''))" by (rule Split_parts_free)
  moreover have "PathProcessor [] = Inr []"
    by (simp add: PathProcessor_last Split_absent)
  ultimately show ?thesis
    using ne by (simp add: PathProcessor_last)
qed

section \<open>Properties of \<^verbatim>\<open>BuildWithConfig\<close> and \<^verbatim>\<open>ByNames\<close>\<close>

lemmas sample_defs =
  ByNames_def BuildWithConfig_def traced_sources_def traced_generator_def sample_sources_def
  KubeClient_def Do_def NewKubeClient_def sample_kube_def new_generator_def
  sample_state_def sample_generator_def prod_def constructor_call_def
  sample_built_def sample_calls_def sample_final_def broken_state_def broken_final_def

lemma sample_run:
  "ByNames (traced_sources sample_sources) (map_option traced_generator (Some sample_generator))
       [''ingress-nginx'', ''ingress-gce''] prod (sample_state, []) =
     (Inr (Some sample_built, None), (sample_final, sample_calls))"
  by (simp add: sample_defs)

lemma sample_run_twice:
  "ByNames (traced_sources sample_sources) (map_option traced_generator (Some sample_generator))
       [''ingress-gce'', ''ingress-gce''] prod (sample_state, []) =
     (Inr (Some twice_built, None), (sample_final, twice_calls))"
  by (simp add: sample_defs twice_built_def twice_calls_def)

lemma sample_run_prefix:
  "ByNames (traced_sources sample_sources) (map_option traced_generator (Some sample_generator))
       [''ingress-nginx''] prod (sample_state, []) =
     (Inr (Some (take 1 sample_built), None), (sample_final, take 2 sample_calls))"
  by (simp add: sample_defs)

lemma ByNames_loop_prefix:
  "ByNames_loop env p cfg acc xs w = (Inr (Some acc', None), w') \<Longrightarrow>
   ByNames_loop env p cfg acc (xs @ ys) w = ByNames_loop env p cfg acc' ys w'"
proof (induction xs arbitrary: acc w)
  case Nil
  then show ?case by simp
next
  case (Cons x xs)
  obtain r w1 where b: "BuildWithConfig env x p cfg w = (r, w1)"
    by (cases "BuildWithConfig env x p cfg w")
  show ?case
  proof (cases r)
    case (Inl pn)
    with b Cons.prems show ?thesis by simp
  next
    case (Inr v)
    obtain src eo where v: "v = (src, eo)" by (cases v)
    show ?thesis
    proof (cases eo)
      case None
      with b Inr v Cons.prems
      have "ByNames_loop env p cfg (acc @ [src]) xs w1 = (Inr (Some acc', None), w')"
        by simp
      from Cons.IH [OF this] b Inr v None show ?thesis by simp
    next
      case (Some e)
      with b Inr v Cons.prems show ?thesis by simp
    qed
  qed
qed

lemma ByNames_at:
  assumes "k < length names"
    and "ByNames env p (take k names) cfg w = (Inr (Some built, None), w1)"
  shows "ByNames env p names cfg w =
           ByNames_loop env p cfg built (names ! k # drop (Suc k) names) w1"
proof -
  have "names = take k names @ names ! k # drop (Suc k) names"
    using assms(1) by (simp add: id_take_nth_drop)
  then have "ByNames env p names cfg w =
      ByNames_loop env p cfg [] (take k names @ names ! k # drop (Suc k) names) w"
    by (simp add: ByNames_def)
  also have "\<dots> = ByNames_loop env p cfg built (names ! k # drop (Suc k) names) w1"
    using assms(2) by (intro ByNames_loop_prefix) (simp add: ByNames_def)
  finally show ?thesis .
qed

lemma BuildWithConfig_traced_success:
  assumes "BuildWithConfig (traced_sources env) name (map_option traced_generator p) cfg (w, tr) =
             (Inr (src, None), (w', tr'))"
  shows "(name = ''ingress-nginx'' \<or> name = ''ingress-gce'') \<and>
         (\<exists>cl c. cfg = Some c \<and>
            tr' = tr @ [CallKubeClient (cl, None),
                        constructor_call name cl (Namespace c) (src, None)])"
  using assms
  by (auto simp: BuildWithConfig_def traced_sources_def traced_generator_def constructor_call_def
      split: if_splits option.splits prod.splits)

lemma ByNames_loop_traced_success:
  assumes "ByNames_loop (traced_sources env) (map_option traced_generator p) cfg acc names (w, tr) =
             (Inr (Some out, None), (w', tr'))"
  shows "\<exists>new cls. out = acc @ new \<and> length new = length names \<and> length cls = length names \<and>
           set names \<subseteq> {''ingress-nginx'', ''ingress-gce''} \<and>
           (names \<noteq> [] \<longrightarrow> cfg \<noteq> None) \<and>
           (\<forall>c. cfg = Some c \<longrightarrow> tr' = tr @ calls_for (Namespace c) names cls new) \<and>
           (names = [] \<longrightarrow> tr' = tr)"
  using assms
proof (induction names arbitrary: acc w tr)
  case Nil
  then show ?case by simp
next
  case (Cons x xs)
  let ?T = "traced_sources env" and ?P = "map_option traced_generator p"
  obtain r w1 tr1 where b: "BuildWithConfig ?T x ?P cfg (w, tr) = (r, (w1, tr1))"
    by (cases "BuildWithConfig ?T x ?P cfg (w, tr)") auto
  from Cons.prems b obtain src where r: "r = Inr (src, None)"
    and rest: "ByNames_loop ?T ?P cfg (acc @ [src]) xs (w1, tr1) = (Inr (Some out, None), (w', tr'))"
    by (cases r) (auto split: option.splits prod.splits)
  from BuildWithConfig_traced_success [OF b [unfolded r]]
  obtain cl c where x: "x = ''ingress-nginx'' \<or> x = ''ingress-gce''" and c: "cfg = Some c"
    and tr1: "tr1 = tr @ [CallKubeClient (cl, None), constructor_call x cl (Namespace c) (src, None)]"
    by blast
  from Cons.IH [OF rest] obtain new cls where
    "out = (acc @ [src]) @ new" "length new = length xs" "length cls = length xs"
    "set xs \<subseteq> {''ingress-nginx'', ''ingress-gce''}"
    "tr' = tr1 @ calls_for (Namespace c) xs cls new"
    using c by auto
  with x c tr1 show ?case
    by (intro exI [of _ "src # new"] exI [of _ "cl # cls"]) auto
qed

lemma calls_for_KubeClient:
  "length cls = length names \<Longrightarrow> length srcs = length names \<Longrightarrow>
   length (filter is_CallKubeClient (calls_for ns names cls srcs)) = length names"
proof (induction ns names cls srcs rule: calls_for.induct)
  case (1 ns name names cl cls src srcs)
  then show ?case by (simp add: constructor_call_def)
qed auto

text \<open>
  C2, as the code has it. For a name that is neither \<open>ingress-nginx\<close> nor \<open>ingress-gce\<close>,
  \<^verbatim>\<open>BuildWithConfig\<close> returns a nil source and the fixed error
  \<^verbatim>\<open>errors.New("source not found")\<close>, without calling the provider or a constructor (the
  world is unchanged); \<^verbatim>\<open>ByNames\<close> with that name first returns a nil list and the same
  error. The error is the same value for every unknown name.
\<close>

theorem BuildWithConfig_unknown_name:
  assumes "name \<noteq> ''ingress-nginx''" and "name \<noteq> ''ingress-gce''"
  shows "BuildWithConfig env name p cfg w =
           (Inr (None, Some (errorString ''source not found'')), w) \<and>
         ByNames env p (name # names) cfg w =
           (Inr (None, Some (errorString ''source not found'')), w)"
  using assms by (simp add: BuildWithConfig_def ByNames_def)

theorem BuildWithConfig_unknown_name_witness:
  "''not-a-real-source'' \<noteq> ''ingress-nginx'' \<and> ''not-a-real-source'' \<noteq> ''ingress-gce'' \<and>
   BuildWithConfig sample_sources ''not-a-real-source'' (Some sample_generator) prod sample_state =
     (Inr (None, Some (errorString ''source not found'')), sample_state) \<and>
   ByNames sample_sources (Some sample_generator) [''not-a-real-source'', ''ingress-gce''] prod
       sample_state =
     (Inr (None, Some (errorString ''source not found'')), sample_state)"
proof -
  have a: "''not-a-real-source'' \<noteq> ''ingress-nginx''" and b: "''not-a-real-source'' \<noteq> ''ingress-gce''"
    by simp_all
  from BuildWithConfig_unknown_name [OF a b] a b show ?thesis by simp
qed

text \<open>
  C2 as stated fails: the error for \<open>not-a-real-source\<close> is the value
  \<^verbatim>\<open>errors.New("source not found")\<close>, the same value as for any other unknown name, and its
  text does not contain the name.
\<close>

theorem BuildWithConfig_error_carries_no_name:
  "fst (BuildWithConfig sample_sources ''not-a-real-source'' (Some sample_generator) prod
          sample_state) =
     Inr (None, Some (errorString ''source not found'')) \<and>
   fst (BuildWithConfig sample_sources ''another-unknown-name'' (Some sample_generator) prod
          sample_state) =
     Inr (None, Some (errorString ''source not found'')) \<and>
   \<not> Contains (message (errorString ''source not found'')) ''not-a-real-source''"
  by (simp add: BuildWithConfig_def Contains_def)

text \<open>
  C3. If the names before position \<open>k\<close> were resolved (giving the partial list \<open>built\<close>)
  and \<^verbatim>\<open>BuildWithConfig\<close> fails with the error \<open>e\<close> at position \<open>k\<close>, then \<^verbatim>\<open>ByNames\<close>
  returns the nil list with \<open>e\<close>, and the world is the one that the failing
  \<^verbatim>\<open>BuildWithConfig\<close> left: the outcome and the world are those of \<^verbatim>\<open>ByNames\<close> on the
  names up to position \<open>k\<close>, so nothing is attempted for a later name. The statement
  holds for every world type, also one that records the calls.
\<close>

theorem ByNames_fail_fast:
  assumes "k < length names"
    and "ByNames env p (take k names) cfg w = (Inr (Some built, None), w1)"
    and "BuildWithConfig env (names ! k) p cfg w1 = (Inr (src, Some e), w2)"
  shows "ByNames env p names cfg w = (Inr (None, Some e), w2) \<and>
         ByNames env p (take (Suc k) names) cfg w = (Inr (None, Some e), w2)"
proof -
  have "ByNames env p names cfg w =
      ByNames_loop env p cfg built (names ! k # drop (Suc k) names) w1"
    using assms(1,2) by (rule ByNames_at)
  moreover have "ByNames env p (take (Suc k) names) cfg w =
      ByNames_loop env p cfg built (take (Suc k) names ! k # drop (Suc k) (take (Suc k) names)) w1"
    using assms(1,2) by (intro ByNames_at) (simp_all add: min_def)
  ultimately show ?thesis
    using assms(1,3) by simp
qed

theorem ByNames_fail_fast_witness:
  "(1::nat) < length [''ingress-nginx'', ''not-a-real-source'', ''ingress-gce''] \<and>
   ByNames (traced_sources sample_sources) (Some (traced_generator sample_generator))
       (take 1 [''ingress-nginx'', ''not-a-real-source'', ''ingress-gce'']) prod (sample_state, []) =
     (Inr (Some (take 1 sample_built), None), (sample_final, take 2 sample_calls)) \<and>
   BuildWithConfig (traced_sources sample_sources)
       ([''ingress-nginx'', ''not-a-real-source'', ''ingress-gce''] ! 1)
       (Some (traced_generator sample_generator)) prod (sample_final, take 2 sample_calls) =
     (Inr (None, Some (errorString ''source not found'')), (sample_final, take 2 sample_calls)) \<and>
   ByNames (traced_sources sample_sources) (Some (traced_generator sample_generator))
       [''ingress-nginx'', ''not-a-real-source'', ''ingress-gce''] prod (sample_state, []) =
     (Inr (None, Some (errorString ''source not found'')), (sample_final, take 2 sample_calls))"
proof -
  have k: "(1::nat) < length [''ingress-nginx'', ''not-a-real-source'', ''ingress-gce'']"
    by simp
  have pre: "ByNames (traced_sources sample_sources) (Some (traced_generator sample_generator))
       (take 1 [''ingress-nginx'', ''not-a-real-source'', ''ingress-gce'']) prod (sample_state, []) =
     (Inr (Some (take 1 sample_built), None), (sample_final, take 2 sample_calls))"
    using sample_run_prefix by simp
  have bad: "BuildWithConfig (traced_sources sample_sources)
       ([''ingress-nginx'', ''not-a-real-source'', ''ingress-gce''] ! 1)
       (Some (traced_generator sample_generator)) prod (sample_final, take 2 sample_calls) =
     (Inr (None, Some (errorString ''source not found'')), (sample_final, take 2 sample_calls))"
    by (simp add: BuildWithConfig_def)
  from ByNames_fail_fast [OF k pre bad] k pre bad show ?thesis by simp
qed

text \<open>
  C4. A successful \<^verbatim>\<open>ByNames\<close> returns as many sources as there are names. Every name is
  one of the two known names, and the calls made are, position by position, one
  \<^verbatim>\<open>KubeClient\<close> call and then one call of the constructor of the name at that position,
  with the client of that call and \<^verbatim>\<open>cfg.Namespace\<close>; the source at position \<open>i\<close> of the
  result is what that constructor call returned. A name that occurs twice has two
  constructor calls. (\<open>cfg\<close> is nil only if there are no names.)
\<close>

theorem ByNames_success:
  assumes "ByNames (traced_sources env) (map_option traced_generator p) names cfg (w, []) =
             (Inr (Some sources, None), (w', tr))"
  shows "length sources = length names \<and>
         set names \<subseteq> {''ingress-nginx'', ''ingress-gce''} \<and>
         (names \<noteq> [] \<longrightarrow> cfg \<noteq> None) \<and>
         (\<exists>cls. length cls = length names \<and>
            (\<forall>c. cfg = Some c \<longrightarrow> tr = calls_for (Namespace c) names cls sources))"
  using ByNames_loop_traced_success [OF assms [unfolded ByNames_def]] by auto

theorem ByNames_success_witness:
  "ByNames (traced_sources sample_sources) (map_option traced_generator (Some sample_generator))
       [''ingress-nginx'', ''ingress-gce''] prod (sample_state, []) =
     (Inr (Some sample_built, None), (sample_final, sample_calls)) \<and>
   length sample_built = length [''ingress-nginx'', ''ingress-gce''] \<and>
   (\<exists>cls. length cls = length [''ingress-nginx'', ''ingress-gce''] \<and>
      sample_calls = calls_for ''prod'' [''ingress-nginx'', ''ingress-gce''] cls sample_built) \<and>
   ByNames (traced_sources sample_sources) (map_option traced_generator (Some sample_generator))
       [''ingress-gce'', ''ingress-gce''] prod (sample_state, []) =
     (Inr (Some twice_built, None), (sample_final, twice_calls)) \<and>
   length twice_built = length [''ingress-gce'', ''ingress-gce''] \<and>
   (\<exists>cls. length cls = length [''ingress-gce'', ''ingress-gce''] \<and>
      twice_calls = calls_for ''prod'' [''ingress-gce'', ''ingress-gce''] cls twice_built)"
proof -
  note h = sample_run
  note d = sample_run_twice
  from ByNames_success [OF h] ByNames_success [OF d] show ?thesis
    using h d by (simp add: prod_def)
qed

text \<open>
  C5. On the empty list of names \<^verbatim>\<open>ByNames\<close> returns the empty, non-nil list and a nil
  error and leaves the world as it is, whatever the provider and the config are (also
  nil ones); run on collaborators that record their calls, it records none, so the
  provider's \<^verbatim>\<open>KubeClient\<close> is not called.
\<close>

theorem ByNames_empty:
  "ByNames env p [] cfg w = (Inr (Some [], None), w) \<and>
   ByNames (traced_sources env) (map_option traced_generator p) [] cfg (w, tr) =
     (Inr (Some [], None), (w, tr))"
  by (simp add: ByNames_def)

lemma broken_call:
  "sample_generator broken_state =
     ((Clientset None, Some (collaboratorError ''kubeconfig: no such file'')), broken_final)"
  by (simp add: sample_defs)

text \<open>
  C6, as the code has it. \<^verbatim>\<open>ByNames\<close> does not call the provider before the loop; the
  provider's \<^verbatim>\<open>KubeClient\<close> is called inside \<^verbatim>\<open>BuildWithConfig\<close>, once for every name that
  the registry knows, after the lookup of that name. So:
  \<^item> a successful \<^verbatim>\<open>ByNames\<close> has called \<^verbatim>\<open>KubeClient\<close> once per name;
  \<^item> at an unknown name (the names before it resolved) \<^verbatim>\<open>ByNames\<close> fails with
    \<open>source not found\<close> and no further call: the lookup comes before any call of
    \<^verbatim>\<open>KubeClient\<close> for that name;
  \<^item> at a known name whose \<^verbatim>\<open>KubeClient\<close> call fails with \<open>e\<close>, \<^verbatim>\<open>ByNames\<close> fails with \<open>e\<close>
    at once: that call is the last one, no constructor runs for the name and no later
    name is attempted.
\<close>

theorem ByNames_KubeClient_calls:
  "(ByNames (traced_sources env) (map_option traced_generator p) names cfg (w, []) =
      (Inr (Some sources, None), (w', tr)) \<longrightarrow>
    length (filter is_CallKubeClient tr) = length names) \<and>
   (k < length names \<and>
    ByNames (traced_sources env) (map_option traced_generator p) (take k names) cfg (w, []) =
      (Inr (Some built, None), (w1, tr1)) \<longrightarrow>
    (names ! k \<noteq> ''ingress-nginx'' \<and> names ! k \<noteq> ''ingress-gce'' \<longrightarrow>
       ByNames (traced_sources env) (map_option traced_generator p) names cfg (w, []) =
         (Inr (None, Some (errorString ''source not found'')), (w1, tr1))) \<and>
    ((names ! k = ''ingress-nginx'' \<or> names ! k = ''ingress-gce'') \<and>
     p = Some kubeClient \<and> kubeClient w1 = ((cl, Some e), w2) \<longrightarrow>
       ByNames (traced_sources env) (map_option traced_generator p) names cfg (w, []) =
         (Inr (None, Some e), (w2, tr1 @ [CallKubeClient (cl, Some e)]))))"
proof (intro conjI impI)
  assume h: "ByNames (traced_sources env) (map_option traced_generator p) names cfg (w, []) =
      (Inr (Some sources, None), (w', tr))"
  from ByNames_loop_traced_success [OF h [unfolded ByNames_def]]
  obtain cls where len: "length sources = length names" "length cls = length names"
    and cfg: "names \<noteq> [] \<longrightarrow> cfg \<noteq> None"
    and tr: "\<forall>c. cfg = Some c \<longrightarrow> tr = calls_for (Namespace c) names cls sources"
    and emp: "names = [] \<longrightarrow> tr = []"
    by auto
  show "length (filter is_CallKubeClient tr) = length names"
  proof (cases "names = []")
    case True
    with emp show ?thesis by simp
  next
    case False
    with cfg obtain c where "cfg = Some c" by auto
    with tr len show ?thesis by (simp add: calls_for_KubeClient)
  qed
next
  assume a: "k < length names \<and>
    ByNames (traced_sources env) (map_option traced_generator p) (take k names) cfg (w, []) =
      (Inr (Some built, None), (w1, tr1))"
    and u: "names ! k \<noteq> ''ingress-nginx'' \<and> names ! k \<noteq> ''ingress-gce''"
  from a have "ByNames (traced_sources env) (map_option traced_generator p) names cfg (w, []) =
      ByNames_loop (traced_sources env) (map_option traced_generator p) cfg built
        (names ! k # drop (Suc k) names) (w1, tr1)"
    by (intro ByNames_at) simp_all
  with u show "ByNames (traced_sources env) (map_option traced_generator p) names cfg (w, []) =
         (Inr (None, Some (errorString ''source not found'')), (w1, tr1))"
    by (simp add: BuildWithConfig_def)
next
  assume a: "k < length names \<and>
    ByNames (traced_sources env) (map_option traced_generator p) (take k names) cfg (w, []) =
      (Inr (Some built, None), (w1, tr1))"
    and f: "(names ! k = ''ingress-nginx'' \<or> names ! k = ''ingress-gce'') \<and>
     p = Some kubeClient \<and> kubeClient w1 = ((cl, Some e), w2)"
  from a have "ByNames (traced_sources env) (map_option traced_generator p) names cfg (w, []) =
      ByNames_loop (traced_sources env) (map_option traced_generator p) cfg built
        (names ! k # drop (Suc k) names) (w1, tr1)"
    by (intro ByNames_at) simp_all
  with f show "ByNames (traced_sources env) (map_option traced_generator p) names cfg (w, []) =
         (Inr (None, Some e), (w2, tr1 @ [CallKubeClient (cl, Some e)]))"
    by (auto simp: BuildWithConfig_def traced_generator_def)
qed

theorem ByNames_KubeClient_calls_witness:
  "length (filter is_CallKubeClient sample_calls) = length [''ingress-nginx'', ''ingress-gce''] \<and>
   ByNames (traced_sources sample_sources) (map_option traced_generator (Some sample_generator))
       [''ingress-nginx'', ''not-a-real-source'', ''ingress-gce''] prod (sample_state, []) =
     (Inr (None, Some (errorString ''source not found'')), (sample_final, take 2 sample_calls)) \<and>
   sample_generator broken_state =
     ((Clientset None, Some (collaboratorError ''kubeconfig: no such file'')), broken_final) \<and>
   ByNames (traced_sources sample_sources) (map_option traced_generator (Some sample_generator))
       [''ingress-nginx'', ''ingress-gce''] prod (broken_state, []) =
     (Inr (None, Some (collaboratorError ''kubeconfig: no such file'')),
      (broken_final,
       [CallKubeClient (Clientset None, Some (collaboratorError ''kubeconfig: no such file''))]))"
proof (intro conjI)
  show "length (filter is_CallKubeClient sample_calls) = length [''ingress-nginx'', ''ingress-gce'']"
    using ByNames_KubeClient_calls [THEN conjunct1, rule_format, OF sample_run] .
next
  have "(1::nat) < length [''ingress-nginx'', ''not-a-real-source'', ''ingress-gce''] \<and>
    ByNames (traced_sources sample_sources) (map_option traced_generator (Some sample_generator))
       (take 1 [''ingress-nginx'', ''not-a-real-source'', ''ingress-gce'']) prod (sample_state, []) =
     (Inr (Some (take 1 sample_built), None), (sample_final, take 2 sample_calls))"
    using sample_run_prefix by simp
  moreover have "[''ingress-nginx'', ''not-a-real-source'', ''ingress-gce''] ! 1 \<noteq> ''ingress-nginx'' \<and>
    [''ingress-nginx'', ''not-a-real-source'', ''ingress-gce''] ! 1 \<noteq> ''ingress-gce''"
    by simp
  ultimately show "ByNames (traced_sources sample_sources)
       (map_option traced_generator (Some sample_generator))
       [''ingress-nginx'', ''not-a-real-source'', ''ingress-gce''] prod (sample_state, []) =
     (Inr (None, Some (errorString ''source not found'')), (sample_final, take 2 sample_calls))"
    by (rule ByNames_KubeClient_calls [THEN conjunct2, rule_format, THEN conjunct1, rule_format])
next
  show b: "sample_generator broken_state =
     ((Clientset None, Some (collaboratorError ''kubeconfig: no such file'')), broken_final)"
    by (rule broken_call)
  have "(0::nat) < length [''ingress-nginx'', ''ingress-gce''] \<and>
    ByNames (traced_sources sample_sources) (map_option traced_generator (Some sample_generator))
       (take 0 [''ingress-nginx'', ''ingress-gce'']) prod (broken_state, []) =
     (Inr (Some [], None), (broken_state, []))"
    by (simp add: ByNames_def)
  moreover have "([''ingress-nginx'', ''ingress-gce''] ! 0 = ''ingress-nginx'' \<or>
      [''ingress-nginx'', ''ingress-gce''] ! 0 = ''ingress-gce'') \<and>
     Some sample_generator = Some sample_generator \<and>
     sample_generator broken_state =
       ((Clientset None, Some (collaboratorError ''kubeconfig: no such file'')), broken_final)"
    using b by simp
  ultimately have "ByNames (traced_sources sample_sources)
       (map_option traced_generator (Some sample_generator))
       [''ingress-nginx'', ''ingress-gce''] prod (broken_state, []) =
     (Inr (None, Some (collaboratorError ''kubeconfig: no such file'')),
      (broken_final,
       [] @ [CallKubeClient (Clientset None, Some (collaboratorError ''kubeconfig: no such file''))]))"
    by (rule ByNames_KubeClient_calls [THEN conjunct2, rule_format, THEN conjunct2, rule_format])
  then show "ByNames (traced_sources sample_sources)
       (map_option traced_generator (Some sample_generator))
       [''ingress-nginx'', ''ingress-gce''] prod (broken_state, []) =
     (Inr (None, Some (collaboratorError ''kubeconfig: no such file'')),
      (broken_final,
       [CallKubeClient (Clientset None, Some (collaboratorError ''kubeconfig: no such file''))]))"
    by simp
qed

text \<open>
  C6 as stated fails: for the two known names \<^verbatim>\<open>ByNames\<close> calls the provider's
  \<^verbatim>\<open>KubeClient\<close> twice, not once; and for a non-empty list with an unknown name it
  decides the lookup and fails without any call of \<^verbatim>\<open>KubeClient\<close>.
\<close>

theorem ByNames_calls_KubeClient_per_name:
  "length (filter is_CallKubeClient
     (snd (snd (ByNames (traced_sources sample_sources) (Some (traced_generator sample_generator))
        [''ingress-nginx'', ''ingress-gce''] prod (sample_state, []))))) = 2 \<and>
   ByNames (traced_sources sample_sources) (Some (traced_generator sample_generator))
        [''not-a-real-source''] prod (sample_state, []) =
     (Inr (None, Some (errorString ''source not found'')), (sample_state, []))"
  using sample_run by (simp add: sample_calls_def BuildWithConfig_def ByNames_def)

section \<open>Properties of \<^verbatim>\<open>NewKubeClient\<close>\<close>

text \<open>
  C7. With a non-empty \<open>kubeConfig\<close> the only credential call is the config builder on
  exactly that path: \<^verbatim>\<open>os.Stat\<close> is not called and the default location is not used;
  if the builder fails on that path with \<open>e\<close>, so does \<^verbatim>\<open>NewKubeClient\<close>. With an empty
  \<open>kubeConfig\<close> the default location is probed with \<^verbatim>\<open>os.Stat\<close>, and the builder gets
  the default location if the probe returned no error, the empty path otherwise.
\<close>

theorem NewKubeClient_credential_file:
  "(kubeConfig \<noteq> [] \<longrightarrow>
      filter is_credential_call
        (snd (snd (NewKubeClient (traced_kube env) kubeConfig kubeMaster (w, [])))) =
        [CallBuildConfigFromFlags kubeMaster kubeConfig] \<and>
      (\<forall>e w1. BuildConfigFromFlags env kubeMaster kubeConfig w = (Inl e, w1) \<longrightarrow>
         NewKubeClient env kubeConfig kubeMaster w = ((None, Some e), w1))) \<and>
   (kubeConfig = [] \<longrightarrow>
      filter is_credential_call
        (snd (snd (NewKubeClient (traced_kube env) kubeConfig kubeMaster (w, [])))) =
        [CallStat (RecommendedHomeFile env),
         CallBuildConfigFromFlags kubeMaster
           (if fst (Stat env (RecommendedHomeFile env) w) = None then RecommendedHomeFile env
            else [])])"
proof (cases "Stat env (RecommendedHomeFile env) w")
  case (Pair so w0)
  then show ?thesis
    by (cases "kubeConfig = []"; cases so)
       (auto simp: NewKubeClient_def traced_kube_def split: prod.splits sum.splits)
qed

theorem NewKubeClient_credential_file_witness:
  "filter is_credential_call
     (snd (snd (NewKubeClient (traced_kube sample_kube) ''/missing'' ''https://k8s''
        ([''/home/u/.kube/config''], [])))) =
     [CallBuildConfigFromFlags ''https://k8s'' ''/missing''] \<and>
   NewKubeClient sample_kube ''/missing'' ''https://k8s'' [''/home/u/.kube/config''] =
     ((None, Some (collaboratorError ''kubeconfig: no such file'')), [''/home/u/.kube/config'']) \<and>
   filter is_credential_call
     (snd (snd (NewKubeClient (traced_kube sample_kube) [] ''https://k8s''
        ([''/home/u/.kube/config''], [])))) =
     [CallStat ''/home/u/.kube/config'',
      CallBuildConfigFromFlags ''https://k8s'' ''/home/u/.kube/config''] \<and>
   filter is_credential_call
     (snd (snd (NewKubeClient (traced_kube sample_kube) [] ''https://k8s'' ([], [])))) =
     [CallStat ''/home/u/.kube/config'', CallBuildConfigFromFlags ''https://k8s'' []]"
proof -
  have ne: "''/missing'' \<noteq> []" by simp
  have bad: "BuildConfigFromFlags sample_kube ''https://k8s'' ''/missing''
      [''/home/u/.kube/config''] =
      (Inl (collaboratorError ''kubeconfig: no such file''), [''/home/u/.kube/config''])"
    by (simp add: sample_kube_def)
  note a = NewKubeClient_credential_file
    [of "''/missing''" sample_kube "''https://k8s''" "[''/home/u/.kube/config'']",
      THEN conjunct1, rule_format, OF ne]
  note b = NewKubeClient_credential_file
    [of "[]" sample_kube "''https://k8s''" "[''/home/u/.kube/config'']",
      THEN conjunct2, rule_format, OF refl]
  note c = NewKubeClient_credential_file
    [of "[]" sample_kube "''https://k8s''" "[]", THEN conjunct2, rule_format, OF refl]
  from a [THEN conjunct1] a [THEN conjunct2, rule_format, OF bad] b c show ?thesis
    by (simp add: sample_kube_def)
qed

section \<open>Properties of \<^verbatim>\<open>SingletonClientGenerator\<close>\<close>

lemma NewKubeClient_error_nil:
  "snd (fst (NewKubeClient env kc km w)) = Some e \<Longrightarrow> fst (fst (NewKubeClient env kc km w)) = None"
  by (auto simp: NewKubeClient_def split: prod.splits sum.splits option.splits if_splits)

text \<open>
  C1 fails on the code. When \<^verbatim>\<open>NewKubeClient\<close> fails with \<open>e\<close> in the first call of
  \<^verbatim>\<open>KubeClient\<close> on a generator whose \<^verbatim>\<open>Once\<close> is unused, that call returns \<open>e\<close> (with an
  interface that wraps the nil pointer); every later call, in any world, returns the
  same client with a nil error: \<open>e\<close> lives in the local variable of the first call only,
  and \<^verbatim>\<open>Do\<close> does not run the closure again.
\<close>

theorem KubeClient_error_not_repeated:
  assumes "unused (Once p)"
    and "snd (fst (NewKubeClient env (KubeConfig p) (KubeMaster p) w)) = Some e"
  shows "\<exists>g1 w1. KubeClient env (p, w) = ((Clientset None, Some e), (g1, w1)) \<and>
           (\<forall>w2. KubeClient env (g1, w2) = ((Clientset None, None), (g1, w2)))"
proof -
  obtain c eo w1 where n: "NewKubeClient env (KubeConfig p) (KubeMaster p) w = ((c, eo), w1)"
    by (metis surj_pair)
  with assms(2) NewKubeClient_error_nil [OF assms(2)] have "c = None" "eo = Some e"
    by simp_all
  with n assms(1) show ?thesis
    by (simp add: KubeClient_def Do_def unused_def)
qed

theorem KubeClient_error_not_repeated_witness:
  "unused (Once (fst broken_state)) \<and>
   snd (fst (NewKubeClient sample_kube (KubeConfig (fst broken_state))
       (KubeMaster (fst broken_state)) (snd broken_state))) =
     Some (collaboratorError ''kubeconfig: no such file'') \<and>
   KubeClient sample_kube broken_state =
     ((Clientset None, Some (collaboratorError ''kubeconfig: no such file'')), broken_final) \<and>
   KubeClient sample_kube broken_final = ((Clientset None, None), broken_final)"
proof -
  have u: "unused (Once (fst broken_state))"
    by (simp add: unused_def broken_state_def new_generator_def)
  have h: "snd (fst (NewKubeClient sample_kube (KubeConfig (fst broken_state))
       (KubeMaster (fst broken_state)) (snd broken_state))) =
     Some (collaboratorError ''kubeconfig: no such file'')"
    by (simp add: NewKubeClient_def sample_kube_def broken_state_def new_generator_def)
  from KubeClient_error_not_repeated [OF u h] obtain g1 w1 where
    first: "KubeClient sample_kube (fst broken_state, snd broken_state) =
       ((Clientset None, Some (collaboratorError ''kubeconfig: no such file'')), (g1, w1))"
    and later: "\<And>w2. KubeClient sample_kube (g1, w2) = ((Clientset None, None), (g1, w2))"
    by blast
  have "KubeClient sample_kube (fst broken_state, snd broken_state) =
       ((Clientset None, Some (collaboratorError ''kubeconfig: no such file'')), broken_final)"
    by (simp add: sample_defs)
  with first have "(g1, w1) = broken_final" by simp
  with first later [of w1] u h show ?thesis
    by simp
qed

lemmas step_defs = step_def goto_def set_Once_def Let_def

lemma returned_is_before: "\<not> past_Do l \<Longrightarrow> returned_is c l"
  by (cases l) simp_all

lemma consistent_init: "unused (Once p) \<Longrightarrow> consistent_with None (init p w)"
  by (simp add: consistent_with_def global_ok_def frame_ok_def init_def unused_def)

lemma consistent_step_with:
  assumes "consistent_with owner s"
  shows "consistent_with
           (case point (frames s t) of
              Locking \<Rightarrow> if mu_locked (Once (generator s)) then owner else Some t
            | Unlocking \<Rightarrow> None
            | _ \<Rightarrow> owner)
           (step env t s)"
    (is "consistent_with ?owner' _")
proof -
  from assms have g: "global_ok owner s" and ft: "frame_ok owner s t"
    by (simp_all add: consistent_with_def)
  have "global_ok ?owner' (step env t s)"
    using g ft
    by (cases "point (frames s t)"; cases "done_flag (Once (generator s))";
        cases "mu_locked (Once (generator s))"; cases owner)
       (auto simp: global_ok_def frame_ok_def attempt_recorded_def step_defs
        split: prod.splits)
  moreover have "frame_ok ?owner' (step env t s) u" for u
  proof -
    from assms have fu: "frame_ok owner s u" by (simp add: consistent_with_def)
    show ?thesis
      using g ft fu
      by (cases "point (frames s t)"; cases "u = t"; cases "done_flag (Once (generator s))";
          cases "mu_locked (Once (generator s))"; cases owner)
         (auto simp: global_ok_def frame_ok_def attempt_recorded_def step_defs returned_is_before
           split: prod.splits)
  qed
  ultimately show ?thesis by (simp add: consistent_with_def)
qed

lemma consistent_step:
  assumes "\<exists>owner. consistent_with owner s"
  shows "\<exists>owner. consistent_with owner (step env t s)"
proof -
  from assms obtain owner where "consistent_with owner s" ..
  then have "consistent_with
           (case point (frames s t) of
              Locking \<Rightarrow> if mu_locked (Once (generator s)) then owner else Some t
            | Unlocking \<Rightarrow> None
            | _ \<Rightarrow> owner)
           (step env t s)"
    by (rule consistent_step_with)
  then show ?thesis ..
qed

lemma consistent_run:
  "\<exists>owner. consistent_with owner s \<Longrightarrow> \<exists>owner. consistent_with owner (run env sched s)"
proof (induction sched arbitrary: s)
  case Nil
  then show ?case by (simp add: run_def)
next
  case (Cons t sched)
  have "\<exists>owner. consistent_with owner (step env t s)"
    using Cons.prems by (rule consistent_step)
  then have "\<exists>owner. consistent_with owner (run env sched (step env t s))"
    by (rule Cons.IH)
  then show ?case by (simp add: run_def)
qed

lemma consistent_started:
  assumes "consistent_with owner s"
  shows "started s \<le> 1"
proof -
  from assms have g: "global_ok owner s" by (simp add: consistent_with_def)
  show ?thesis
  proof (cases owner)
    case None
    with g show ?thesis
      by (cases "done_flag (Once (generator s))")
         (simp_all add: global_ok_def attempt_recorded_def)
  next
    case (Some v)
    from assms have "frame_ok owner s v" by (simp add: consistent_with_def)
    with g Some show ?thesis
      by (cases "done_flag (Once (generator s))")
         (auto simp: global_ok_def frame_ok_def attempt_recorded_def)
  qed
qed

lemma consistent_returned:
  assumes "consistent_with owner s" and "point (frames s t) = Returned cl e"
  shows "started s = 1 \<and> length (results s) = 1 \<and>
         cl = Clientset (fst (hd (results s))) \<and> client (generator s) = cl"
proof -
  from assms(1) have g: "global_ok owner s" and f: "frame_ok owner s t"
    by (simp_all add: consistent_with_def)
  from f assms(2) have "done_flag (Once (generator s))" and "cl = client (generator s)"
    by (simp_all add: frame_ok_def)
  with g show ?thesis
    by (simp add: global_ok_def attempt_recorded_def)
qed

lemma consistent_running:
  assumes "consistent_with owner s" and "point (frames s t) = Running" and "u \<noteq> t"
  shows "point (frames s u) = Entry \<or> point (frames s u) = Locking"
proof -
  from assms(1) have ft: "frame_ok owner s t" and fu: "frame_ok owner s u"
    by (simp_all add: consistent_with_def)
  from ft assms(2) have "owner = Some t" and "\<not> done_flag (Once (generator s))"
    by (simp_all add: frame_ok_def)
  with fu assms(3) have "\<not> holds_mutex (point (frames s u))" and "\<not> past_Do (point (frames s u))"
    by (auto simp: frame_ok_def)
  then show ?thesis
    by (cases "point (frames s u)") simp_all
qed

text \<open>
  C9. In every state that overlapping calls of \<^verbatim>\<open>KubeClient\<close> on a generator can
  reach, under every schedule, starting with an unused \<^verbatim>\<open>Once\<close>:
  \<^item> \<^verbatim>\<open>NewKubeClient\<close> has been invoked at most once;
  \<^item> while that invocation runs, every other call has either not started or stands at
    \<^verbatim>\<open>Lock\<close>: no call gets past \<^verbatim>\<open>Once.Do\<close> before the single attempt is complete;
  \<^item> when a call has returned, \<^verbatim>\<open>NewKubeClient\<close> has been invoked exactly once and has
    finished, and the client the call returned wraps the pointer that this attempt
    produced, which is the memoized \<^verbatim>\<open>p.client\<close>. All calls therefore return the same
    client; after a successful attempt it is the handle that the attempt created.
\<close>

theorem KubeClient_concurrent_once:
  assumes "unused (Once p)"
  shows "let s = run env sched (init p w) in
     started s \<le> 1 \<and>
     (\<forall>t u. point (frames s t) = Running \<and> u \<noteq> t \<longrightarrow>
        point (frames s u) = Entry \<or> point (frames s u) = Locking) \<and>
     (\<forall>t cl e. point (frames s t) = Returned cl e \<longrightarrow>
        started s = 1 \<and> length (results s) = 1 \<and>
        cl = Clientset (fst (hd (results s))) \<and> client (generator s) = cl)"
proof -
  let ?s = "run env sched (init p w)"
  have "consistent_with None (init p w)"
    using assms by (rule consistent_init)
  then have "\<exists>owner. consistent_with owner (init p w)" ..
  then have "\<exists>owner. consistent_with owner ?s"
    by (rule consistent_run)
  then obtain owner where c: "consistent_with owner ?s" ..
  have a: "started ?s \<le> 1"
    using c by (rule consistent_started)
  have b: "started ?s = 1 \<and> length (results ?s) = 1 \<and>
        cl = Clientset (fst (hd (results ?s))) \<and> client (generator ?s) = cl"
    if "point (frames ?s t) = Returned cl e" for t cl e
    using c that by (rule consistent_returned)
  have w: "point (frames ?s u) = Entry \<or> point (frames ?s u) = Locking"
    if "point (frames ?s t) = Running \<and> u \<noteq> t" for t u
    using c that [THEN conjunct1] that [THEN conjunct2] by (rule consistent_running)
  show ?thesis
    unfolding Let_def
  proof (intro conjI)
    show "started ?s \<le> 1" by (rule a)
  next
    show "\<forall>t u. point (frames ?s t) = Running \<and> u \<noteq> t \<longrightarrow>
        point (frames ?s u) = Entry \<or> point (frames ?s u) = Locking"
      using w by blast
  next
    show "\<forall>t cl e. point (frames ?s t) = Returned cl e \<longrightarrow>
        started ?s = 1 \<and> length (results ?s) = 1 \<and>
        cl = Clientset (fst (hd (results ?s))) \<and> client (generator ?s) = cl"
      using b by blast
  qed
qed

lemma two_calls_run:
  "point (frames (run sample_kube two_calls sample_system) 0) =
     Returned (Clientset (Some 11)) None \<and>
   point (frames (run sample_kube two_calls sample_system) 1) =
     Returned (Clientset (Some 11)) None"
  by (simp add: two_calls_def run_def step_defs init_def new_generator_def sample_kube_def
      NewKubeClient_def sample_system_def)

lemma two_calls_midway:
  "point (frames (run sample_kube (take 6 two_calls) sample_system) 0) = Running \<and>
   point (frames (run sample_kube (take 6 two_calls) sample_system) 1) = Locking"
  by (simp add: two_calls_def run_def step_defs init_def new_generator_def sample_kube_def
      NewKubeClient_def sample_system_def)

theorem KubeClient_concurrent_once_witness:
  "unused (Once (new_generator [] ''https://k8s'')) \<and>
   point (frames (run sample_kube (take 6 two_calls) sample_system) 0) = Running \<and>
   (point (frames (run sample_kube (take 6 two_calls) sample_system) 1) = Entry \<or>
    point (frames (run sample_kube (take 6 two_calls) sample_system) 1) = Locking) \<and>
   point (frames (run sample_kube two_calls sample_system) 0) =
     Returned (Clientset (Some 11)) None \<and>
   point (frames (run sample_kube two_calls sample_system) 1) =
     Returned (Clientset (Some 11)) None \<and>
   started (run sample_kube two_calls sample_system) = 1 \<and>
   length (results (run sample_kube two_calls sample_system)) = 1 \<and>
   Clientset (Some 11) =
     Clientset (fst (hd (results (run sample_kube two_calls sample_system)))) \<and>
   client (generator (run sample_kube two_calls sample_system)) = Clientset (Some 11)"
proof -
  note r = two_calls_run
  note m = two_calls_midway
  have m0: "point (frames (run sample_kube (take 6 two_calls) sample_system) 0) = Running \<and>
      (1::nat) \<noteq> 0"
    using m by simp
  have u: "unused (Once (new_generator [] ''https://k8s''))"
    by (simp add: unused_def new_generator_def)
  note w = KubeClient_concurrent_once
    [OF u, of sample_kube "take 6 two_calls" "[]", unfolded Let_def,
      folded sample_system_def, THEN conjunct2, THEN conjunct1, rule_format, OF m0]
  note k = KubeClient_concurrent_once
    [OF u, of sample_kube two_calls "[]", unfolded Let_def,
      folded sample_system_def, THEN conjunct2, THEN conjunct2, rule_format,
      OF r [THEN conjunct1]]
  from u r m w k show ?thesis by simp
qed

text \<open>
  The two descriptions of \<^verbatim>\<open>KubeClient\<close> agree: a call that takes its eight steps with no
  other call in between, from a state where the mutex is free, returns what
  \<open>KubeClient\<close> returns and leaves the generator and the world as \<open>KubeClient\<close> does.
\<close>

lemma run_alone:
  assumes "point (frames s t) = Entry" and "local_err (frames s t) = None"
    and "\<not> mu_locked (Once (generator s))"
  shows "point (frames (run env (replicate 8 t) s) t) =
           Returned (fst (fst (KubeClient env (generator s, world s))))
                    (snd (fst (KubeClient env (generator s, world s)))) \<and>
         (generator (run env (replicate 8 t) s), world (run env (replicate 8 t) s)) =
           snd (KubeClient env (generator s, world s))"
proof (cases "done_flag (Once (generator s))")
  case True
  with assms show ?thesis
    by (simp add: run_def step_defs KubeClient_def Do_def eval_nat_numeral)
next
  case False
  obtain c e w' where n:
    "NewKubeClient env (KubeConfig (generator s)) (KubeMaster (generator s)) (world s) =
       ((c, e), w')"
    by (metis surj_pair)
  with assms False show ?thesis
    by (simp add: run_def step_defs KubeClient_def Do_def eval_nat_numeral)
qed

text \<open>
  Calls do return: if the calls \<open>ts\<close> take their steps one call after the other, from a
  state where the mutex is free and none of them has started, all of them have returned
  at the end, and the mutex is free again. In particular any number of calls on a
  generator with an unused \<^verbatim>\<open>Once\<close> can all return.
\<close>

lemma step_other: "u \<noteq> t \<Longrightarrow> frames (step env t s) u = frames s u"
  by (cases "point (frames s t)") (simp_all add: step_defs split: prod.split)

lemma run_other: "u \<notin> set sched \<Longrightarrow> frames (run env sched s) u = frames s u"
proof (induction sched arbitrary: s)
  case Nil
  then show ?case by (simp add: run_def)
next
  case (Cons t sched)
  then have "frames (run env sched (step env t s)) u = frames (step env t s) u" by simp
  with Cons.prems show ?case by (simp add: run_def step_other)
qed

lemma run_append: "run env (a @ b) s = run env b (run env a s)"
  by (simp add: run_def)

lemma run_alone_unlocked:
  assumes "point (frames s t) = Entry" and "\<not> mu_locked (Once (generator s))"
  shows "\<not> mu_locked (Once (generator (run env (replicate 8 t) s))) \<and>
         (\<exists>cl e. point (frames (run env (replicate 8 t) s) t) = Returned cl e)"
proof (cases "done_flag (Once (generator s))")
  case True
  with assms show ?thesis
    by (simp add: run_def step_defs eval_nat_numeral)
next
  case False
  obtain c e w' where n:
    "NewKubeClient env (KubeConfig (generator s)) (KubeMaster (generator s)) (world s) =
       ((c, e), w')"
    by (metis surj_pair)
  with assms False show ?thesis
    by (simp add: run_def step_defs eval_nat_numeral)
qed

lemma calls_in_turn_return:
  assumes "distinct ts" and "\<not> mu_locked (Once (generator s))"
    and "\<forall>t \<in> set ts. point (frames s t) = Entry"
  shows "\<not> mu_locked (Once (generator (run env (concat (map (replicate 8) ts)) s))) \<and>
         (\<forall>t \<in> set ts. \<exists>cl e.
            point (frames (run env (concat (map (replicate 8) ts)) s) t) = Returned cl e)"
  using assms
proof (induction ts arbitrary: s rule: rev_induct)
  case Nil
  then show ?case by (simp add: run_def)
next
  case (snoc t ts)
  let ?s1 = "run env (concat (map (replicate 8) ts)) s"
  let ?s2 = "run env (replicate 8 t) ?s1"
  from snoc.prems have t: "t \<notin> set ts" and d: "distinct ts" by simp_all
  have ih: "\<not> mu_locked (Once (generator ?s1)) \<and>
      (\<forall>u \<in> set ts. \<exists>cl e. point (frames ?s1 u) = Returned cl e)"
    using snoc.IH [OF d] snoc.prems by simp
  have "t \<notin> set (concat (map (replicate 8) ts))"
    using t by auto
  then have "frames ?s1 t = frames s t" by (rule run_other)
  with snoc.prems have "point (frames ?s1 t) = Entry" by simp
  with ih have new: "\<not> mu_locked (Once (generator ?s2)) \<and>
      (\<exists>cl e. point (frames ?s2 t) = Returned cl e)"
    by (intro run_alone_unlocked) simp_all
  have old: "\<exists>cl e. point (frames ?s2 u) = Returned cl e" if "u \<in> set ts" for u
  proof -
    from that t have "u \<notin> set (replicate 8 t)" by auto
    then have "frames ?s2 u = frames ?s1 u" by (rule run_other)
    with ih that show ?thesis by simp
  qed
  have "run env (concat (map (replicate 8) (ts @ [t]))) s = ?s2"
    by (simp add: run_append)
  with new old show ?case by auto
qed

lemma all_calls_return:
  assumes "unused (Once p)"
  shows "\<forall>t < n. \<exists>cl e.
     point (frames (run env (concat (map (replicate 8) [0..<n])) (init p w)) t) =
       Returned cl e"
  using calls_in_turn_return [of "[0..<n]" "init p w" env] assms
  by (simp add: init_def unused_def)

text \<open>
  The lost error of C1 under overlap: with a failing \<^verbatim>\<open>NewKubeClient\<close>, call 0 returns the
  error, and call 1, which waited at \<^verbatim>\<open>Lock\<close> during the attempt, returns a nil error.
\<close>

lemma two_calls_broken_run:
  "point (frames (run sample_kube two_calls broken_system) 0) =
     Returned (Clientset None) (Some (collaboratorError ''kubeconfig: no such file'')) \<and>
   point (frames (run sample_kube two_calls broken_system) 1) =
     Returned (Clientset None) None"
  by (simp add: two_calls_def run_def step_defs init_def new_generator_def sample_kube_def
      NewKubeClient_def broken_system_def)

end
